theory Spec2Isabelle
  imports Complex_Main "HOL-Library.Word"
begin

section \<open>GATEKEEPER: a shallow embedding of \<open>src/index.tsx\<close>\<close>

text \<open>
  JavaScript numbers are IEEE doubles. They are modelled as \<open>real\<close>, so every statement
  below is about finite, NaN-free inputs and about exact arithmetic. The one place where the
  program itself can produce NaN from finite inputs, \<open>Math.sqrt\<close> of a negative number, is
  modelled with \<open>option\<close>: \<open>None\<close> stands for NaN.
\<close>

subsection \<open>Geo distance utility\<close>

definition deg2rad :: "real \<Rightarrow> real" where
  "deg2rad deg = deg * (pi / 180)"

definition Math_sqrt :: "real \<Rightarrow> real option" where
  \<comment> \<open>\<open>Math.sqrt\<close>: NaN below zero.\<close>
  "Math_sqrt x = (if x < 0 then None else Some (sqrt x))"

definition Math_atan2 :: "real \<Rightarrow> real \<Rightarrow> real" where
  \<comment> \<open>\<open>Math.atan2(y, x)\<close> on finite arguments: the angle of the point \<open>(x, y)\<close>.\<close>
  "Math_atan2 y x =
     (if 0 < x then arctan (y / x)
      else if x < 0 then (if 0 \<le> y then arctan (y / x) + pi else arctan (y / x) - pi)
      else if 0 < y then pi / 2
      else if y < 0 then - (pi / 2)
      else 0)"

definition haversine_a :: "real \<Rightarrow> real \<Rightarrow> real \<Rightarrow> real \<Rightarrow> real" where
  \<comment> \<open>The constant \<open>a\<close> of \<open>getDistanceFromLatLonInFeet\<close>.\<close>
  "haversine_a lat1 lon1 lat2 lon2 =
     (let dLat = deg2rad (lat2 - lat1);
          dLon = deg2rad (lon2 - lon1)
      in sin (dLat / 2) * sin (dLat / 2) +
         cos (deg2rad lat1) * cos (deg2rad lat2) *
         sin (dLon / 2) * sin (dLon / 2))"

definition getDistanceFromLatLonInFeet :: "real \<Rightarrow> real \<Rightarrow> real \<Rightarrow> real \<Rightarrow> real option" where
  "getDistanceFromLatLonInFeet lat1 lon1 lat2 lon2 =
     (let R = 20902231;
          a = haversine_a lat1 lon1 lat2 lon2
      in case (Math_sqrt a, Math_sqrt (1 - a)) of
           (Some y, Some x) \<Rightarrow> Some (R * (2 * Math_atan2 y x))
         | _ \<Rightarrow> None)"

subsection \<open>Audio codec utility\<close>

text \<open>
  A \<open>Uint8Array\<close> is a list of bytes, an \<open>Int16Array\<close> a list of 16-bit words read as
  two's complement, a \<open>Float32Array\<close> a list of reals. A binary string (the argument of
  \<open>btoa\<close>, the result of \<open>atob\<close>) is a \<open>string\<close>: its characters are the code units
  0 to 255. Exceptions of the platform are values of \<open>error\<close>.
\<close>

type_synonym byte = "8 word"
type_synonym int16 = "16 word"

datatype error = InvalidCharacterError | RangeError | NotSupportedError

text \<open>
  \<open>btoa\<close> and \<open>atob\<close> are functions of the browser, not of the repository. They are
  modelled from their definition in the HTML standard: base64 of RFC 4648 with padding, and
  the forgiving base64 decoder (ASCII whitespace is removed, one or two trailing \<open>=\<close> are
  dropped from an input whose length is a multiple of four, a remaining length of 1 modulo 4
  or a character outside the alphabet is an \<open>InvalidCharacterError\<close>, and the bits left
  over at the end are discarded).
\<close>

definition b64chars :: string where
  "b64chars = ''ABCDEFGHIJKLMNOPQRSTUVWXYZabcdefghijklmnopqrstuvwxyz0123456789+/''"

definition b64char :: "nat \<Rightarrow> char" where
  \<comment> \<open>Applied to six-bit values only, which are below 64.\<close>
  "b64char n = b64chars ! n"

definition b64val :: "char \<Rightarrow> nat option" where
  "b64val c = map_of (zip b64chars [0..<64]) c"

fun sextets :: "nat list \<Rightarrow> nat list" where
  "sextets (a # b # c # rest) =
     (a div 4) # ((a mod 4) * 16 + b div 16) # ((b mod 16) * 4 + c div 64) # (c mod 64) #
     sextets rest"
| "sextets [a, b] = [a div 4, (a mod 4) * 16 + b div 16, (b mod 16) * 4]"
| "sextets [a] = [a div 4, (a mod 4) * 16]"
| "sextets [] = []"

definition btoa :: "string \<Rightarrow> string" where
  "btoa s =
     (let bs = map of_char s :: nat list
      in map b64char (sextets bs) @ replicate ((3 - length bs mod 3) mod 3) (CHR ''=''))"

definition ascii_whitespace :: "char \<Rightarrow> bool" where
  "ascii_whitespace c = (c \<in> set [CHR 0x09, CHR 0x0A, CHR 0x0C, CHR 0x0D, CHR 0x20])"

definition strip_padding :: "string \<Rightarrow> string" where
  "strip_padding d =
     (if length d mod 4 = 0 then
        (if 2 \<le> length d \<and> drop (length d - 2) d = ''=='' then take (length d - 2) d
         else if 1 \<le> length d \<and> last d = CHR ''='' then butlast d
         else d)
      else d)"

fun octets :: "nat list \<Rightarrow> nat list" where
  "octets (p # q # r # s # rest) =
     (p * 4 + q div 16) # ((q mod 16) * 16 + r div 4) # ((r mod 4) * 64 + s) # octets rest"
| "octets [p, q, r] = [p * 4 + q div 16, (q mod 16) * 16 + r div 4]"
| "octets [p, q] = [p * 4 + q div 16]"
| "octets [p] = []"
| "octets [] = []"

definition atob :: "string \<Rightarrow> error + string" where
  \<comment> \<open>\<open>the\<close> is applied after the check that every character has a value.\<close>
  "atob s =
     (let d = strip_padding (filter (\<lambda>c. \<not> ascii_whitespace c) s)
      in if length d mod 4 = 1 then Inl InvalidCharacterError
         else if \<exists>c \<in> set d. b64val c = None then Inl InvalidCharacterError
         else Inr (map char_of (octets (map (the \<circ> b64val) d))))"

definition decode :: "string \<Rightarrow> error + byte list" where
  \<comment> \<open>\<open>bytes[i] = binaryString.charCodeAt(i)\<close> for every index.\<close>
  "decode base64 =
     (case atob base64 of
        Inl e \<Rightarrow> Inl e
      | Inr binaryString \<Rightarrow> Inr (map (\<lambda>c. word_of_nat (of_char c)) binaryString))"

text \<open>
  Typed-array views share the bytes of their buffer in the byte order of the platform,
  little-endian on every platform in use: the low byte of a 16-bit element comes first.
\<close>

definition bytes_of_int16 :: "int16 \<Rightarrow> byte list" where
  "bytes_of_int16 w = [ucast w, ucast (drop_bit 8 w)]"

definition int16_of_bytes :: "byte \<Rightarrow> byte \<Rightarrow> int16" where
  "int16_of_bytes lo hi = or (push_bit 8 (ucast hi)) (ucast lo)"

fun Int16Array_view :: "byte list \<Rightarrow> int16 list" where
  "Int16Array_view (lo # hi # rest) = int16_of_bytes lo hi # Int16Array_view rest"
| "Int16Array_view [b] = []"
| "Int16Array_view [] = []"

record AudioBuffer =
  numberOfChannels :: nat
  bufLength :: nat
  sampleRate :: real
  channelData :: "real list list"

definition duration :: "AudioBuffer \<Rightarrow> real" where
  "duration b = real (bufLength b) / sampleRate b"

definition createBuffer :: "nat \<Rightarrow> nat \<Rightarrow> real \<Rightarrow> error + AudioBuffer" where
  \<comment> \<open>\<open>BaseAudioContext.createBuffer\<close> of the Web Audio API: a zero-filled buffer, and a
      \<open>NotSupportedError\<close> when an argument is zero or outside its nominal range. The
      nominal ranges are the implementation's own; the Web Audio specification requires
      them to include 1 to 32 channels and 8000 to 96000 Hz, and these required ranges are
      the ones modelled, so that what is accepted here is accepted by every implementation.
      The program asks for 1 channel at 24000 Hz.\<close>
  "createBuffer numChannels len rate =
     (if numChannels = 0 \<or> 32 < numChannels \<or> len = 0 \<or> rate < 8000 \<or> 96000 < rate
      then Inl NotSupportedError
      else Inr \<lparr>numberOfChannels = numChannels, bufLength = len, sampleRate = rate,
                channelData = replicate numChannels (replicate len 0)\<rparr>)"

definition decodeAudioData :: "byte list \<Rightarrow> real \<Rightarrow> nat \<Rightarrow> error + AudioBuffer" where
  \<comment> \<open>\<open>new Int16Array(data.buffer)\<close> raises a \<open>RangeError\<close> on an odd number of bytes.
      \<open>frameCount\<close> is a quotient of numbers; \<open>createBuffer\<close> truncates it to an integer,
      and the write at an index beyond the channel's length is ignored, so that the samples
      written are those below the integer quotient.\<close>
  "decodeAudioData data rate numChannels =
     (if odd (length data) then Inl RangeError
      else
        let dataInt16 = Int16Array_view data;
            frameCount = length dataInt16 div numChannels
        in case createBuffer numChannels frameCount rate of
             Inl e \<Rightarrow> Inl e
           | Inr buffer \<Rightarrow>
               Inr (buffer\<lparr>channelData :=
                 map (\<lambda>channel.
                   map (\<lambda>i. real_of_int (sint (dataInt16 ! (i * numChannels + channel))) / 32768)
                     [0..<frameCount])
                   [0..<numChannels]\<rparr>))"

definition js_trunc :: "real \<Rightarrow> int" where
  \<comment> \<open>The integer part of a number, rounding towards zero.\<close>
  "js_trunc x = (if 0 \<le> x then \<lfloor>x\<rfloor> else \<lceil>x\<rceil>)"

definition toInt16 :: "real \<Rightarrow> int16" where
  \<comment> \<open>Storing a number into an \<open>Int16Array\<close>: truncate, then wrap modulo \<open>2 ^ 16\<close>.\<close>
  "toInt16 x = word_of_int (js_trunc x)"

record PcmBlob =
  data :: string
  mimeType :: string

definition createBlob :: "real list \<Rightarrow> PcmBlob" where
  "createBlob samples =
     (let int16 = map (\<lambda>x. toInt16 (x * 32768)) samples;
          bytes = concat (map bytes_of_int16 int16);
          binary = map (\<lambda>b. char_of (unat b)) bytes
      in \<lparr>data = btoa binary, mimeType = ''audio/pcm;rate=16000''\<rparr>)"

definition roundTrip :: "real list \<Rightarrow> real \<Rightarrow> nat \<Rightarrow> error + AudioBuffer" where
  \<comment> \<open>Encoding a frame with \<open>createBlob\<close>, then decoding its payload with \<open>decode\<close> and
      \<open>decodeAudioData\<close>, as the receiver of the payload would.\<close>
  "roundTrip samples rate numChannels =
     (case decode (data (createBlob samples)) of
        Inl e \<Rightarrow> Inl e
      | Inr bytes \<Rightarrow> decodeAudioData bytes rate numChannels)"

subsection \<open>Application state\<close>

text \<open>
  The state of the \<open>App\<close> component: its React state variables and its refs. A ref to an
  object of the platform is modelled by whether it is set. \<open>trace\<close> is a ghost field: the
  calls the handlers make that a claim counts, in the order they are made. A setter
  changes the state at once; what a handler reads is either a ref, which is current, or a
  state variable captured by the render that created the handler, which is a constant of
  that handler.
\<close>

datatype Status = STANDBY | SECURE | VIOLATION | TESTING

record Location =
  lat :: real
  lon :: real

record Gyro =
  alpha :: real
  beta :: real
  gamma :: real

datatype Effect =
    SetStatus Status
  | CallStartTest
  | LiveConnect
  | SourceStart real AudioBuffer
  | Alert string
  | ConsoleError
  | ConsoleLog string

record App =
  started :: bool
  testActive :: bool
  status :: Status
  homeLocation :: "Location option"
  currentDistance :: "real option"
  gyroData :: Gyro
  stabilityScore :: real
  streamRef :: bool
  audioContextRef :: "real option"
  aiClient :: bool
  sessionRef :: bool
  nextStartTimeRef :: real
  frameIntervalRef :: bool
  trace :: "Effect list"

definition mount :: "string option \<Rightarrow> App" where
  \<comment> \<open>The initial state, and the first effect: \<open>if (API_KEY)\<close> holds for a defined,
      non-empty string.\<close>
  "mount API_KEY =
     \<lparr>started = False, testActive = False, status = STANDBY, homeLocation = None,
      currentDistance = Some 0, gyroData = \<lparr>alpha = 0, beta = 0, gamma = 0\<rparr>,
      stabilityScore = 100, streamRef = False, audioContextRef = None,
      aiClient = (case API_KEY of None \<Rightarrow> False | Some k \<Rightarrow> k \<noteq> []),
      sessionRef = False, nextStartTimeRef = 0, frameIntervalRef = False, trace = []\<rparr>"

subsection \<open>Device sensor bridge\<close>

definition stabilityUpdate :: "real \<Rightarrow> real \<Rightarrow> real" where
  \<comment> \<open>The updater passed to \<open>setStabilityScore\<close>.\<close>
  "stabilityUpdate movement prev =
     (let diff = \<bar>prev - (100 - (movement / 5))\<bar>
      in if diff > 5 then prev - 1 else if prev < 100 then prev + 0.5 else 100)"

definition handleOrientation :: "App \<Rightarrow> real option \<Rightarrow> real option \<Rightarrow> real option \<Rightarrow> App" where
  "handleOrientation s a b g =
     (case (a, b, g) of
        (Some alpha', Some beta', Some gamma') \<Rightarrow>
          s\<lparr>gyroData := \<lparr>alpha = alpha', beta = beta', gamma = gamma'\<rparr>,
            stabilityScore := stabilityUpdate (\<bar>beta'\<bar> + \<bar>gamma'\<bar>) (stabilityScore s)\<rparr>
      | _ \<Rightarrow> s)"

datatype Hardware = Granted | MediaDenied | FailedAfterStream

definition startSystem :: "App \<Rightarrow> Hardware \<Rightarrow> App" where
  \<comment> \<open>\<open>getUserMedia\<close> may reject (\<open>MediaDenied\<close>); \<open>video.play()\<close> or the orientation
      permission request may reject after the stream is stored (\<open>FailedAfterStream\<close>).\<close>
  "startSystem s hw =
     (let s1 = s\<lparr>started := True\<rparr>;
          failure = [ConsoleError,
            Alert ''SYSTEM FAILURE: HARDWARE PERMISSIONS REQUIRED FOR GATEKEEPER PROTOCOL.'']
      in case hw of
           Granted \<Rightarrow> s1\<lparr>streamRef := True\<rparr>
         | MediaDenied \<Rightarrow> s1\<lparr>trace := trace s1 @ failure\<rparr>
         | FailedAfterStream \<Rightarrow> s1\<lparr>streamRef := True, trace := trace s1 @ failure\<rparr>)"

subsection \<open>Live session controller\<close>

definition startTest :: "App \<Rightarrow> App" where
  "startTest s =
     (let s1 = s\<lparr>testActive := True, status := TESTING,
                 trace := trace s @ [CallStartTest, SetStatus TESTING]\<rparr>
      in if \<not> aiClient s1 \<or> \<not> streamRef s1 then s1
         else s1\<lparr>audioContextRef := Some 16000, sessionRef := True,
                 trace := trace s1 @ [LiveConnect]\<rparr>)"

definition onopen :: "App \<Rightarrow> App" where
  \<comment> \<open>The video and canvas elements are rendered exactly when \<open>started\<close> holds.\<close>
  "onopen s =
     (let s1 = s\<lparr>trace := trace s @ [ConsoleLog ''GATEKEEPER ONLINE'']\<rparr>
      in if started s1 then s1\<lparr>frameIntervalRef := True\<rparr> else s1)"

definition scheduleClip :: "App \<Rightarrow> real \<Rightarrow> AudioBuffer \<Rightarrow> App" where
  \<comment> \<open>The end of \<open>onmessage\<close>: \<open>now\<close> is \<open>outCtx.currentTime\<close>.\<close>
  "scheduleClip s now buffer =
     (let start = max now (nextStartTimeRef s)
      in s\<lparr>nextStartTimeRef := start + duration buffer,
           trace := trace s @ [SourceStart start buffer]\<rparr>)"

definition onmessage :: "App \<Rightarrow> real \<Rightarrow> string option \<Rightarrow> App" where
  \<comment> \<open>\<open>audioData\<close> is absent or a string; the empty string is falsy. An exception of the
      decoders rejects the promise of the handler and leaves the state as it was.\<close>
  "onmessage s now audioData =
     (case audioData of
        None \<Rightarrow> s
      | Some b64 \<Rightarrow>
          if b64 = [] then s
          else (case decode b64 of
                  Inl e \<Rightarrow> s
                | Inr bytes \<Rightarrow>
                    (case decodeAudioData bytes 24000 1 of
                       Inl e \<Rightarrow> s
                     | Inr buffer \<Rightarrow> scheduleClip s now buffer)))"

fun playClips :: "App \<Rightarrow> (real \<times> AudioBuffer) list \<Rightarrow> App" where
  \<comment> \<open>Decoded clips arriving one after the other, each with the time of its arrival.\<close>
  "playClips s [] = s"
| "playClips s ((now, buffer) # clips) = playClips (scheduleClip s now buffer) clips"

fun starts :: "Effect list \<Rightarrow> (real \<times> AudioBuffer) list" where
  \<comment> \<open>The clips started, with their start times, in the order of the calls.\<close>
  "starts [] = []"
| "starts (SourceStart t b # es) = (t, b) # starts es"
| "starts (e # es) = starts es"

fun spec_schedule :: "real \<Rightarrow> (real \<times> AudioBuffer) list \<Rightarrow> (real \<times> AudioBuffer) list" where
  \<comment> \<open>The schedule in the words of the specification: each clip starts at the later of
      its arrival time and the end of the clip scheduled before it.\<close>
  "spec_schedule previousEnd [] = []"
| "spec_schedule previousEnd ((now, buffer) # clips) =
     (max now previousEnd, buffer) # spec_schedule (max now previousEnd + duration buffer) clips"

subsection \<open>Proximity monitor\<close>

definition exceeds :: "real option \<Rightarrow> real \<Rightarrow> bool" where
  \<comment> \<open>The comparison \<open>d > limit\<close> of numbers: false when \<open>d\<close> is NaN.\<close>
  "exceeds d limit = (case d of None \<Rightarrow> False | Some x \<Rightarrow> x > limit)"

text \<open>
  The success callback of \<open>watchPosition\<close> is created by the effect of a render and
  reads \<open>homeLocation\<close>, \<open>status\<close> and \<open>testActive\<close> as that render saw them. The
  effect lists them as dependencies, so that after a commit that changed one of them React
  clears the watch and installs a new one with the values of the new render; a fix
  delivered before that still goes to the old callback. \<open>startTest\<close> reads refs only.
\<close>

record Closure =
  seenHomeLocation :: "Location option"
  seenStatus :: Status
  seenTestActive :: bool

definition render :: "App \<Rightarrow> Closure" where
  \<comment> \<open>What a render of the state \<open>s\<close> hands to the callback it installs.\<close>
  "render s =
     \<lparr>seenHomeLocation = homeLocation s, seenStatus = status s, seenTestActive = testActive s\<rparr>"

definition onPosition :: "Closure \<Rightarrow> App \<Rightarrow> real \<Rightarrow> real \<Rightarrow> App" where
  \<comment> \<open>The success callback of \<open>watchPosition\<close> installed with the closure \<open>c\<close>, called in
      the state \<open>s\<close>.\<close>
  "onPosition c s latitude longitude =
     (case seenHomeLocation c of
        None \<Rightarrow>
          s\<lparr>homeLocation := Some \<lparr>lat = latitude, lon = longitude\<rparr>, status := SECURE,
            trace := trace s @ [SetStatus SECURE]\<rparr>
      | Some home \<Rightarrow>
          let distance = getDistanceFromLatLonInFeet (lat home) (lon home) latitude longitude;
              s1 = s\<lparr>currentDistance := distance\<rparr>
          in if exceeds distance 15 \<and> seenStatus c = SECURE \<and> \<not> seenTestActive c
             then startTest (s1\<lparr>status := VIOLATION, trace := trace s1 @ [SetStatus VIOLATION]\<rparr>)
             else s1)"

subsection \<open>Events of a run\<close>

text \<open>
  A run is the life of the page from its load to its next reload. Each event is handled
  where its listener exists: the location watch once \<open>started\<close> holds, the button
  \<open>Initialize System\<close> before that, the button \<open>SUBMIT TO TEST\<close> in mode
  \<open>VIOLATION\<close> with no test active, the callbacks of the session once it is connected.
  \<open>endTest\<close> reloads the page and so ends the run. The event \<open>Position\<close> is a fix
  delivered to the watch of the latest render, that is, after React has committed the
  state changes before it; a fix that arrives earlier is a call of \<open>onPosition\<close> with the
  closure of an older render.
\<close>

datatype Event =
    ClickInitialize Hardware
  | DeviceOrientation "real option" "real option" "real option"
  | Position real real
  | PositionError
  | ClickSubmitToTest
  | SessionOpen
  | ServerMessage real "string option"
  | SessionClose
  | SessionError

fun step :: "App \<Rightarrow> Event \<Rightarrow> App" where
  "step s (ClickInitialize hw) = (if started s then s else startSystem s hw)"
| "step s (DeviceOrientation a b g) = handleOrientation s a b g"
| "step s (Position latitude longitude) =
     (if started s then onPosition (render s) s latitude longitude else s)"
| "step s PositionError = (if started s then s\<lparr>trace := trace s @ [ConsoleError]\<rparr> else s)"
| "step s ClickSubmitToTest =
     (if started s \<and> status s = VIOLATION \<and> \<not> testActive s then startTest s else s)"
| "step s SessionOpen = (if sessionRef s then onopen s else s)"
| "step s (ServerMessage now audioData) =
     (if sessionRef s then onmessage s now audioData else s)"
| "step s SessionClose =
     (if sessionRef s then s\<lparr>trace := trace s @ [ConsoleLog ''GATEKEEPER OFFLINE'']\<rparr> else s)"
| "step s SessionError = (if sessionRef s then s\<lparr>trace := trace s @ [ConsoleError]\<rparr> else s)"

fun run :: "App \<Rightarrow> Event list \<Rightarrow> App" where
  "run s [] = s"
| "run s (e # es) = run (step s e) es"

section \<open>Properties\<close>

subsection \<open>Facts about the distance\<close>

lemma haversine_a_same: "haversine_a la lo la lo = 0"
  by (simp add: haversine_a_def deg2rad_def)

lemma distance_same: "getDistanceFromLatLonInFeet la lo la lo = Some 0"
  by (simp add: getDistanceFromLatLonInFeet_def haversine_a_same Math_sqrt_def Math_atan2_def)

lemma sin_half_neg_sq: "sin (deg2rad (x - y) / 2) * sin (deg2rad (x - y) / 2)
    = sin (deg2rad (y - x) / 2) * sin (deg2rad (y - x) / 2)"
proof -
  have "deg2rad (x - y) / 2 = - (deg2rad (y - x) / 2)"
    by (simp add: deg2rad_def field_simps)
  then show ?thesis by simp
qed

lemma haversine_a_sym: "haversine_a lat1 lon1 lat2 lon2 = haversine_a lat2 lon2 lat1 lon1"
proof -
  have "sin (deg2rad (lat2 - lat1) / 2) * sin (deg2rad (lat2 - lat1) / 2)
      = sin (deg2rad (lat1 - lat2) / 2) * sin (deg2rad (lat1 - lat2) / 2)"
    by (rule sin_half_neg_sq)
  moreover have "cos (deg2rad lat1) * cos (deg2rad lat2) *
        sin (deg2rad (lon2 - lon1) / 2) * sin (deg2rad (lon2 - lon1) / 2)
      = cos (deg2rad lat2) * cos (deg2rad lat1) *
        sin (deg2rad (lon1 - lon2) / 2) * sin (deg2rad (lon1 - lon2) / 2)"
    using sin_half_neg_sq [of lon2 lon1] by (simp add: mult.assoc mult.left_commute)
  ultimately show ?thesis
    by (simp add: haversine_a_def Let_def)
qed

text \<open>
  C9. The great-circle distance of a coordinate pair to itself is exactly 0, for every
  latitude and longitude.
\<close>

theorem C9_distance_self_zero:
  "getDistanceFromLatLonInFeet la lo la lo = Some 0"
  by (rule distance_same)

text \<open>
  C10. The great-circle distance is symmetric in its two coordinate pairs.
\<close>

theorem C10_distance_symmetric:
  "getDistanceFromLatLonInFeet lat1 lon1 lat2 lon2 = getDistanceFromLatLonInFeet lat2 lon2 lat1 lon1"
  by (simp add: getDistanceFromLatLonInFeet_def haversine_a_sym [of lat1 lon1 lat2 lon2])

subsection \<open>Facts about the handlers\<close>

lemma startTest_fields:
  "testActive (startTest s)" "status (startTest s) = TESTING"
  "homeLocation (startTest s) = homeLocation s" "started (startTest s) = started s"
  "aiClient (startTest s) = aiClient s" "streamRef (startTest s) = streamRef s"
  "currentDistance (startTest s) = currentDistance s"
  "nextStartTimeRef (startTest s) = nextStartTimeRef s"
  "stabilityScore (startTest s) = stabilityScore s"
  by (simp_all add: startTest_def Let_def)

lemma startTest_trace:
  "trace (startTest s) = trace s @ [CallStartTest, SetStatus TESTING] @
     (if aiClient s \<and> streamRef s then [LiveConnect] else [])"
  by (simp add: startTest_def Let_def)

lemma startTest_blocked:
  "\<not> aiClient s \<or> \<not> streamRef s \<Longrightarrow>
   startTest s = s\<lparr>testActive := True, status := TESTING,
                   trace := trace s @ [CallStartTest, SetStatus TESTING]\<rparr>"
  by (auto simp add: startTest_def Let_def)

lemma onPosition_first:
  "homeLocation s = None \<Longrightarrow>
   onPosition (render s) s la lo = s\<lparr>homeLocation := Some \<lparr>lat = la, lon = lo\<rparr>, status := SECURE,
            trace := trace s @ [SetStatus SECURE]\<rparr>"
  by (simp add: onPosition_def render_def)

lemma onPosition_quiet:
  "homeLocation s = Some home \<Longrightarrow>
   \<not> (exceeds (getDistanceFromLatLonInFeet (lat home) (lon home) la lo) 15 \<and> status s = SECURE \<and> \<not> testActive s) \<Longrightarrow>
   onPosition (render s) s la lo = s\<lparr>currentDistance := getDistanceFromLatLonInFeet (lat home) (lon home) la lo\<rparr>"
  by (auto simp add: onPosition_def render_def Let_def)

lemma onPosition_trigger:
  "homeLocation s = Some home \<Longrightarrow>
   exceeds (getDistanceFromLatLonInFeet (lat home) (lon home) la lo) 15 \<Longrightarrow> status s = SECURE \<Longrightarrow> \<not> testActive s \<Longrightarrow>
   onPosition (render s) s la lo = startTest (s\<lparr>currentDistance := getDistanceFromLatLonInFeet (lat home) (lon home) la lo,
       status := VIOLATION, trace := trace s @ [SetStatus VIOLATION]\<rparr>)"
  by (simp add: onPosition_def render_def Let_def)

lemma onPosition_homeLocation:
  "homeLocation s = Some home \<Longrightarrow> homeLocation (onPosition (render s) s la lo) = Some home"
  by (simp add: onPosition_def render_def Let_def startTest_fields)

lemma step_homeLocation:
  "homeLocation s = Some home \<Longrightarrow> homeLocation (step s e) = Some home"
  by (cases e)
     (auto simp add: onPosition_homeLocation startTest_fields handleOrientation_def startSystem_def
        onopen_def onmessage_def scheduleClip_def Let_def
        split: option.splits sum.splits Hardware.splits)

lemma run_homeLocation:
  "homeLocation s = Some home \<Longrightarrow> homeLocation (run s es) = Some home"
  by (induction es arbitrary: s) (simp_all add: step_homeLocation)

lemma distance_along_meridian:
  assumes "0 \<le> lat2 - lat1" and "lat2 - lat1 < 180"
  shows "getDistanceFromLatLonInFeet lat1 lo lat2 lo = Some (20902231 * deg2rad (lat2 - lat1))"
proof -
  define x where "x = deg2rad (lat2 - lat1) / 2"
  have x: "0 \<le> x" "x < pi / 2"
    using assms by (simp_all add: x_def deg2rad_def)
  have a: "haversine_a lat1 lo lat2 lo = sin x * sin x"
    by (simp add: haversine_a_def x_def deg2rad_def)
  have s: "0 \<le> sin x" using x by (intro sin_ge_zero) simp_all
  have c: "0 < cos x" using x by (intro cos_gt_zero_pi) simp_all
  have "1 - sin x * sin x = cos x * cos x"
    using sin_cos_squared_add3 [of x] by linarith
  then have r: "Math_sqrt (sin x * sin x) = Some (sin x)" "Math_sqrt (1 - sin x * sin x) = Some (cos x)"
    using s c by (simp_all add: Math_sqrt_def)
  have "Math_atan2 (sin x) (cos x) = arctan (tan x)"
    using c by (simp add: Math_atan2_def tan_def)
  also have "\<dots> = x" using x by (intro arctan_tan) simp_all
  finally have t: "Math_atan2 (sin x) (cos x) = x" .
  show ?thesis
    by (simp add: getDistanceFromLatLonInFeet_def a r t) (simp add: x_def)
qed

lemma distance_far_fix:
  "getDistanceFromLatLonInFeet 30.2672 (- 97.7431) 30.2675 (- 97.7431) =
     Some (20902231 * 3 / 1800000 * pi)"
  "20902231 * 3 / 1800000 * pi > 15"
proof -
  have "getDistanceFromLatLonInFeet 30.2672 (- 97.7431) 30.2675 (- 97.7431)
      = Some (20902231 * deg2rad (30.2675 - 30.2672))"
    by (rule distance_along_meridian) simp_all
  then show "getDistanceFromLatLonInFeet 30.2672 (- 97.7431) 30.2675 (- 97.7431) =
     Some (20902231 * 3 / 1800000 * pi)"
    by (simp add: deg2rad_def)
  have "(15::real) < 20902231 * 3 / 1800000 * 2" by simp
  also have "\<dots> \<le> 20902231 * 3 / 1800000 * pi" using pi_ge_two by simp
  finally show "20902231 * 3 / 1800000 * pi > 15" .
qed


lemma run_fixes_locked:
  "homeLocation s = Some home \<Longrightarrow> status s \<noteq> SECURE \<or> testActive s \<Longrightarrow>
   status (run s (map (\<lambda>(la, lo). Position la lo) fs)) = status s \<and>
   testActive (run s (map (\<lambda>(la, lo). Position la lo) fs)) = testActive s \<and>
   trace (run s (map (\<lambda>(la, lo). Position la lo) fs)) = trace s"
proof (induction fs arbitrary: s)
  case Nil
  then show ?case by simp
next
  case (Cons f fs)
  obtain la lo where f: "f = (la, lo)" by (cases f)
  let ?s1 = "step s (Position la lo)"
  have s1: "?s1 = s \<or> ?s1 = s\<lparr>currentDistance := getDistanceFromLatLonInFeet (lat home) (lon home) la lo\<rparr>"
    using Cons.prems by (auto simp add: onPosition_quiet)
  then have "homeLocation ?s1 = Some home" "status ?s1 \<noteq> SECURE \<or> testActive ?s1"
    "status ?s1 = status s" "testActive ?s1 = testActive s" "trace ?s1 = trace s"
    using Cons.prems by auto
  with Cons.IH [of ?s1] show ?case by (simp add: f)
qed

text \<open>
  When the watch is that of the latest render: in a state with a home location, mode
  \<open>SECURE\<close> and no test active, a fix whose distance from home exceeds 15 feet sets the
  mode to \<open>VIOLATION\<close> once and calls \<open>startTest\<close> once (which sets the mode to
  \<open>TESTING\<close> in the same handler); fixes delivered to the watches of the later renders add
  nothing to the trace.
\<close>

lemma far_fix_triggers_once_current_watch:
  assumes "started s" and "homeLocation s = Some home" and "status s = SECURE"
    and "\<not> testActive s"
    and "getDistanceFromLatLonInFeet (lat home) (lon home) la lo = Some d" and "d > 15"
  shows "trace (step s (Position la lo)) =
           trace s @ [SetStatus VIOLATION, CallStartTest, SetStatus TESTING] @
             (if aiClient s \<and> streamRef s then [LiveConnect] else [])
       \<and> count_list (trace (step s (Position la lo))) (SetStatus VIOLATION) =
           count_list (trace s) (SetStatus VIOLATION) + 1
       \<and> count_list (trace (step s (Position la lo))) CallStartTest =
           count_list (trace s) CallStartTest + 1
       \<and> status (step s (Position la lo)) = TESTING \<and> testActive (step s (Position la lo))
       \<and> (\<forall>fs. trace (run (step s (Position la lo)) (map (\<lambda>(la, lo). Position la lo) fs)) =
             trace (step s (Position la lo)))
       \<and> (\<forall>s2 la2 lo2. homeLocation s2 \<noteq> None \<and> (status s2 = VIOLATION \<or> status s2 = TESTING) \<longrightarrow>
             trace (step s2 (Position la2 lo2)) = trace s2 \<and>
             status (step s2 (Position la2 lo2)) = status s2 \<and>
             testActive (step s2 (Position la2 lo2)) = testActive s2)"
proof -
  define s' where "s' = step s (Position la lo)"
  have far: "exceeds (getDistanceFromLatLonInFeet (lat home) (lon home) la lo) 15"
    using assms(5,6) by (simp add: exceeds_def)
  have s': "s' = startTest (s\<lparr>currentDistance := getDistanceFromLatLonInFeet (lat home) (lon home) la lo,
       status := VIOLATION, trace := trace s @ [SetStatus VIOLATION]\<rparr>)"
    using assms(1) onPosition_trigger [OF assms(2) far assms(3,4)] by (simp add: s'_def)
  have tr: "trace s' = trace s @ [SetStatus VIOLATION, CallStartTest, SetStatus TESTING] @
             (if aiClient s \<and> streamRef s then [LiveConnect] else [])"
    by (simp add: s' startTest_trace)
  have c1: "count_list (trace s') (SetStatus VIOLATION) = count_list (trace s) (SetStatus VIOLATION) + 1"
    by (simp add: tr)
  have c2: "count_list (trace s') CallStartTest = count_list (trace s) CallStartTest + 1"
    by (simp add: tr)
  have st: "status s' = TESTING" "testActive s'" "homeLocation s' = Some home"
    using assms(2) by (simp_all add: s' startTest_fields)
  have later: "\<forall>fs. trace (run s' (map (\<lambda>(la, lo). Position la lo) fs)) = trace s'"
    using run_fixes_locked [of s' home] st by simp
  have any: "\<forall>s2 la2 lo2. homeLocation s2 \<noteq> None \<and> (status s2 = VIOLATION \<or> status s2 = TESTING) \<longrightarrow>
             trace (step s2 (Position la2 lo2)) = trace s2 \<and>
             status (step s2 (Position la2 lo2)) = status s2 \<and>
             testActive (step s2 (Position la2 lo2)) = testActive s2"
    by (auto simp add: onPosition_quiet)
  show ?thesis
    unfolding s'_def [symmetric] using tr c1 c2 st(1,2) later any by blast
qed

lemma armed_state:
  "run (mount k) [ClickInitialize Granted, Position 30.2672 (- 97.7431)] =
     (mount k)\<lparr>started := True, streamRef := True,
        homeLocation := Some \<lparr>lat = 30.2672, lon = - 97.7431\<rparr>, status := SECURE,
        trace := [SetStatus SECURE]\<rparr>"
  by (simp add: mount_def startSystem_def onPosition_first)

lemma onPosition_far_fix:
  assumes "seenHomeLocation c = Some \<lparr>lat = 30.2672, lon = - 97.7431\<rparr>"
    and "seenStatus c = SECURE" and "\<not> seenTestActive c"
  shows "onPosition c s 30.2675 (- 97.7431) =
     startTest (s\<lparr>currentDistance := Some (20902231 * 3 / 1800000 * pi),
       status := VIOLATION, trace := trace s @ [SetStatus VIOLATION]\<rparr>)"
proof -
  have "exceeds (Some (20902231 * 3 / 1800000 * pi)) 15"
    using distance_far_fix(2) by (simp add: exceeds_def)
  then show ?thesis
    using assms distance_far_fix(1) by (simp add: onPosition_def Let_def)
qed

text \<open>
  C3. The claim is that a far fix in mode \<open>SECURE\<close> with no test active sets the mode to
  \<open>VIOLATION\<close> and starts the test exactly once, and that a later far fix does neither
  again. The guard of the callback reads the mode and the test flag of the render that
  installed the watch. With an API key and the hardware granted, home at
  (30.2672, -97.7431) and two fixes at (30.2675, -97.7431), about 109 feet away, both
  delivered to the watch of the render that saw \<open>SECURE\<close> (the second arrives before React
  has committed the effects of the first), the callback sets \<open>VIOLATION\<close> twice, calls
  \<open>startTest\<close> twice and connects two sessions.
\<close>

theorem C3_stale_fix_triggers_twice:
  "(let s = run (mount (Some ''key'')) [ClickInitialize Granted, Position 30.2672 (- 97.7431)];
        c = render s;
        s1 = onPosition c s 30.2675 (- 97.7431);
        s2 = onPosition c s1 30.2675 (- 97.7431)
    in seenStatus c = SECURE \<and> \<not> seenTestActive c
     \<and> status s = SECURE \<and> \<not> testActive s
     \<and> status s1 = TESTING \<and> testActive s1
     \<and> trace s2 =
         [SetStatus SECURE,
          SetStatus VIOLATION, CallStartTest, SetStatus TESTING, LiveConnect,
          SetStatus VIOLATION, CallStartTest, SetStatus TESTING, LiveConnect]
     \<and> count_list (trace s2) (SetStatus VIOLATION) = 2
     \<and> count_list (trace s2) CallStartTest = 2
     \<and> count_list (trace s2) LiveConnect = 2)"
proof -
  define s where "s = run (mount (Some ''key'')) [ClickInitialize Granted, Position 30.2672 (- 97.7431)]"
  have s: "s = (mount (Some ''key''))\<lparr>started := True, streamRef := True,
        homeLocation := Some \<lparr>lat = 30.2672, lon = - 97.7431\<rparr>, status := SECURE,
        trace := [SetStatus SECURE]\<rparr>"
    unfolding s_def by (rule armed_state)
  have c: "seenHomeLocation (render s) = Some \<lparr>lat = 30.2672, lon = - 97.7431\<rparr>"
    "seenStatus (render s) = SECURE" "\<not> seenTestActive (render s)"
    by (simp_all add: s render_def mount_def)
  have k: "aiClient s" "streamRef s" "trace s = [SetStatus SECURE]"
    "status s = SECURE" "\<not> testActive s"
    by (simp_all add: s mount_def)
  define s1 where "s1 = onPosition (render s) s 30.2675 (- 97.7431)"
  have s1: "trace s1 = [SetStatus SECURE, SetStatus VIOLATION, CallStartTest, SetStatus TESTING, LiveConnect]"
    "aiClient s1" "streamRef s1" "status s1 = TESTING" "testActive s1"
    unfolding s1_def onPosition_far_fix [OF c] using k by (simp_all add: startTest_def Let_def)
  define s2 where "s2 = onPosition (render s) s1 30.2675 (- 97.7431)"
  have s2: "trace s2 =
      [SetStatus SECURE,
       SetStatus VIOLATION, CallStartTest, SetStatus TESTING, LiveConnect,
       SetStatus VIOLATION, CallStartTest, SetStatus TESTING, LiveConnect]"
    unfolding s2_def onPosition_far_fix [OF c] using s1 by (simp add: startTest_def Let_def)
  have n: "count_list (trace s2) (SetStatus VIOLATION) = 2" "count_list (trace s2) CallStartTest = 2"
    "count_list (trace s2) LiveConnect = 2"
    unfolding s2 by simp_all
  show ?thesis
    unfolding Let_def s_def [symmetric] s1_def [symmetric] s2_def [symmetric]
    using c(2,3) k(4,5) s1(4,5) s2 n by simp
qed



text \<open>
  A near fix sets no \<open>VIOLATION\<close> and starts no test either when it is delivered to an
  older watch, whose render saw no home location or the same one.
\<close>

lemma near_fix_any_watch:
  assumes "seenHomeLocation c = None \<or> seenHomeLocation c = Some home"
    and "\<not> exceeds (getDistanceFromLatLonInFeet (lat home) (lon home) la lo) 15"
  shows "count_list (trace (onPosition c s la lo)) (SetStatus VIOLATION) =
           count_list (trace s) (SetStatus VIOLATION)
       \<and> count_list (trace (onPosition c s la lo)) CallStartTest = count_list (trace s) CallStartTest
       \<and> (status (onPosition c s la lo) = status s \<or> status (onPosition c s la lo) = SECURE)"
  using assms by (auto simp add: onPosition_def Let_def)

lemma step_aiClient: "aiClient (step s e) = aiClient s"
  by (cases e)
     (auto simp add: onPosition_def render_def startTest_def handleOrientation_def startSystem_def
        onopen_def onmessage_def scheduleClip_def Let_def
        split: option.splits sum.splits Hardware.splits)

lemma step_no_session:
  assumes "\<not> aiClient s" and "\<not> sessionRef s" and "LiveConnect \<notin> set (trace s)"
  shows "\<not> sessionRef (step s e) \<and> LiveConnect \<notin> set (trace (step s e))"
  using assms
  by (cases e)
     (auto simp add: onPosition_def render_def startTest_def handleOrientation_def startSystem_def
        Let_def split: option.splits Hardware.splits)

lemma run_no_session:
  "\<not> aiClient s \<Longrightarrow> \<not> sessionRef s \<Longrightarrow> LiveConnect \<notin> set (trace s) \<Longrightarrow>
   \<not> aiClient (run s es) \<and> \<not> sessionRef (run s es) \<and> LiveConnect \<notin> set (trace (run s es))"
proof (induction es arbitrary: s)
  case Nil
  then show ?case by simp
next
  case (Cons e es)
  have "\<not> aiClient (step s e)" using Cons.prems(1) by (simp add: step_aiClient)
  moreover have "\<not> sessionRef (step s e)" "LiveConnect \<notin> set (trace (step s e))"
    using step_no_session [OF Cons.prems] by simp_all
  ultimately show ?case using Cons.IH [of "step s e"] by simp
qed

lemma step_no_fix:
  "homeLocation s = None \<Longrightarrow> \<forall>la lo. e \<noteq> Position la lo \<Longrightarrow> homeLocation (step s e) = None"
  by (cases e)
     (auto simp add: startTest_fields handleOrientation_def startSystem_def
        onopen_def onmessage_def scheduleClip_def Let_def
        split: option.splits sum.splits Hardware.splits)

lemma run_no_fix:
  "homeLocation s = None \<Longrightarrow> \<forall>la lo. Position la lo \<notin> set es \<Longrightarrow> homeLocation (run s es) = None"
proof (induction es arbitrary: s)
  case Nil
  then show ?case by simp
next
  case (Cons e es)
  have "homeLocation (step s e) = None"
    using Cons.prems by (intro step_no_fix) auto
  moreover have "\<forall>la lo. Position la lo \<notin> set es" using Cons.prems(2) by simp
  ultimately show ?case using Cons.IH by simp
qed

text \<open>
  When the watch is that of the latest render: the first fix of a run (the watch exists,
  no home location yet) sets the home location to its coordinates and the mode to
  \<open>SECURE\<close>, and no later event of such a run changes the home location. Before the first
  fix of a run the home location is unset.
\<close>

lemma home_set_once_current_watch:
  assumes "started s" and "homeLocation s = None"
  shows "homeLocation (step s (Position la lo)) = Some \<lparr>lat = la, lon = lo\<rparr>
       \<and> status (step s (Position la lo)) = SECURE
       \<and> (\<forall>es. homeLocation (run (step s (Position la lo)) es) = Some \<lparr>lat = la, lon = lo\<rparr>)
       \<and> (\<forall>key es. (\<forall>la lo. Position la lo \<notin> set es) \<longrightarrow>
             homeLocation (run (mount key) es) = None)"
proof -
  define s' where "s' = step s (Position la lo)"
  have before: "\<forall>key es. (\<forall>la lo. Position la lo \<notin> set es) \<longrightarrow>
             homeLocation (run (mount key) es) = None"
    by (simp add: run_no_fix mount_def)
  have s': "s' = s\<lparr>homeLocation := Some \<lparr>lat = la, lon = lo\<rparr>, status := SECURE,
            trace := trace s @ [SetStatus SECURE]\<rparr>"
    using assms by (simp add: s'_def onPosition_first)
  have h: "homeLocation s' = Some \<lparr>lat = la, lon = lo\<rparr>" "status s' = SECURE"
    by (simp_all add: s')
  have "\<forall>es. homeLocation (run s' es) = Some \<lparr>lat = la, lon = lo\<rparr>"
    using run_homeLocation [OF h(1)] by simp
  then show ?thesis
    unfolding s'_def [symmetric] using h before by simp
qed

text \<open>
  C6. The claim is that the first fix of a run sets the home location and no later fix
  changes it. The callback tests the home location of the render that installed the watch.
  After startup that render saw no home location; a first fix at (1, 2) sets it, and a
  second fix at (3, 4) delivered to the same watch (before React has committed the effects
  of the first) sets it again: the home location ends as (3, 4).
\<close>

theorem C6_stale_fix_replaces_home:
  "(let s = run (mount None) [ClickInitialize Granted];
        c = render s;
        s1 = onPosition c s 1 2;
        s2 = onPosition c s1 3 4
    in started s \<and> homeLocation s = None \<and> seenHomeLocation c = None
     \<and> homeLocation s1 = Some \<lparr>lat = 1, lon = 2\<rparr> \<and> status s1 = SECURE
     \<and> homeLocation s2 = Some \<lparr>lat = 3, lon = 4\<rparr>
     \<and> homeLocation s2 \<noteq> homeLocation s1)"
proof -
  define s where "s = run (mount None) [ClickInitialize Granted]"
  have c: "started s" "homeLocation s = None" "seenHomeLocation (render s) = None"
    by (simp_all add: s_def render_def mount_def startSystem_def)
  have h: "homeLocation (onPosition (render s) s' la lo) = Some \<lparr>lat = la, lon = lo\<rparr>"
    "status (onPosition (render s) s' la lo) = SECURE" for s' la lo
    using c(3) by (simp_all add: onPosition_def)
  show ?thesis
    unfolding Let_def s_def [symmetric] using c h by simp
qed

text \<open>
  C7. \<open>startTest\<close> sets the test flag and the mode \<open>TESTING\<close> whatever the state; when
  the AI client or the media stream is absent it does nothing else: no session, no audio
  context and no frame grabber are created. Without an API key at startup the AI client is
  absent.
\<close>

theorem C7_startTest_without_client_or_stream:
  "testActive (startTest s) \<and> status (startTest s) = TESTING
   \<and> (\<not> aiClient s \<or> \<not> streamRef s \<longrightarrow>
        startTest s = s\<lparr>testActive := True, status := TESTING,
                        trace := trace s @ [CallStartTest, SetStatus TESTING]\<rparr>
      \<and> sessionRef (startTest s) = sessionRef s
      \<and> audioContextRef (startTest s) = audioContextRef s
      \<and> frameIntervalRef (startTest s) = frameIntervalRef s)
   \<and> \<not> aiClient (mount None)"
proof -
  have "\<not> aiClient s \<or> \<not> streamRef s \<longrightarrow>
        startTest s = s\<lparr>testActive := True, status := TESTING,
                        trace := trace s @ [CallStartTest, SetStatus TESTING]\<rparr>
      \<and> sessionRef (startTest s) = sessionRef s
      \<and> audioContextRef (startTest s) = audioContextRef s
      \<and> frameIntervalRef (startTest s) = frameIntervalRef s"
  proof
    assume b: "\<not> aiClient s \<or> \<not> streamRef s"
    show "startTest s = s\<lparr>testActive := True, status := TESTING,
                        trace := trace s @ [CallStartTest, SetStatus TESTING]\<rparr>
      \<and> sessionRef (startTest s) = sessionRef s
      \<and> audioContextRef (startTest s) = audioContextRef s
      \<and> frameIntervalRef (startTest s) = frameIntervalRef s"
      by (simp add: startTest_blocked [OF b])
  qed
  then show ?thesis by (simp add: startTest_fields mount_def)
qed

theorem C7_witness:
  "\<not> aiClient (mount None)
   \<and> startTest (mount None) = (mount None)\<lparr>testActive := True, status := TESTING,
        trace := [CallStartTest, SetStatus TESTING]\<rparr>
   \<and> status (startTest (mount None)) = TESTING \<and> testActive (startTest (mount None))
   \<and> \<not> sessionRef (startTest (mount None))
   \<and> audioContextRef (startTest (mount None)) = None
   \<and> \<not> frameIntervalRef (startTest (mount None))"
proof -
  have k: "\<not> aiClient (mount None)" "trace (mount None) = []" "\<not> sessionRef (mount None)"
    "audioContextRef (mount None) = None" "\<not> frameIntervalRef (mount None)"
    by (simp_all add: mount_def)
  show ?thesis
    using C7_startTest_without_client_or_stream [of "mount None"] k by simp
qed

text \<open>
  C8. When the API key is absent at startup no AI client is constructed, and throughout
  the run no session is created: \<open>startTest\<close> never connects, and it reports nothing (it
  adds only its own call and the mode change to the trace, no alert and no error log).
\<close>

theorem C8_absent_key_no_session:
  "\<not> aiClient (mount None)
   \<and> (\<forall>es. \<not> aiClient (run (mount None) es)
          \<and> \<not> sessionRef (run (mount None) es)
          \<and> LiveConnect \<notin> set (trace (run (mount None) es))
          \<and> \<not> sessionRef (startTest (run (mount None) es))
          \<and> trace (startTest (run (mount None) es)) =
              trace (run (mount None) es) @ [CallStartTest, SetStatus TESTING])"
proof -
  have k: "\<not> aiClient (mount None)" "\<not> sessionRef (mount None)" "LiveConnect \<notin> set (trace (mount None))"
    by (simp_all add: mount_def)
  have "\<not> aiClient (run (mount None) es)
          \<and> \<not> sessionRef (run (mount None) es)
          \<and> LiveConnect \<notin> set (trace (run (mount None) es))
          \<and> \<not> sessionRef (startTest (run (mount None) es))
          \<and> trace (startTest (run (mount None) es)) =
              trace (run (mount None) es) @ [CallStartTest, SetStatus TESTING]" for es
  proof -
    note r = run_no_session [OF k, of es]
    then have "startTest (run (mount None) es) = (run (mount None) es)\<lparr>testActive := True, status := TESTING,
                   trace := trace (run (mount None) es) @ [CallStartTest, SetStatus TESTING]\<rparr>"
      by (simp add: startTest_blocked)
    then show ?thesis using r by simp
  qed
  then show ?thesis using k(1) by blast
qed

theorem C8_witness:
  "\<not> sessionRef (run (mount None) [ClickInitialize Granted, Position 30.2672 (- 97.7431),
       Position 30.2675 (- 97.7431)])
   \<and> status (run (mount None) [ClickInitialize Granted, Position 30.2672 (- 97.7431),
       Position 30.2675 (- 97.7431)]) = TESTING
   \<and> LiveConnect \<notin> set (trace (run (mount None) [ClickInitialize Granted,
       Position 30.2672 (- 97.7431), Position 30.2675 (- 97.7431)]))"
proof -
  define s where "s = run (mount None) [ClickInitialize Granted, Position 30.2672 (- 97.7431)]"
  have s: "s = (mount None)\<lparr>started := True, streamRef := True,
        homeLocation := Some \<lparr>lat = 30.2672, lon = - 97.7431\<rparr>, status := SECURE,
        trace := [SetStatus SECURE]\<rparr>"
    unfolding s_def by (rule armed_state)
  have far: "exceeds (getDistanceFromLatLonInFeet (lat \<lparr>lat = 30.2672, lon = - 97.7431\<rparr>)
      (lon \<lparr>lat = 30.2672, lon = - 97.7431\<rparr>) 30.2675 (- 97.7431)) 15"
    using distance_far_fix by (simp add: exceeds_def)
  have "run (mount None) [ClickInitialize Granted, Position 30.2672 (- 97.7431),
       Position 30.2675 (- 97.7431)] = step s (Position 30.2675 (- 97.7431))"
    by (simp add: s_def)
  also have "\<dots> = onPosition (render s) s 30.2675 (- 97.7431)" by (simp add: s)
  also have "\<dots> = startTest (s\<lparr>currentDistance :=
         getDistanceFromLatLonInFeet (lat \<lparr>lat = 30.2672, lon = - 97.7431\<rparr>)
           (lon \<lparr>lat = 30.2672, lon = - 97.7431\<rparr>) 30.2675 (- 97.7431),
       status := VIOLATION, trace := trace s @ [SetStatus VIOLATION]\<rparr>)"
    by (rule onPosition_trigger [OF _ far]) (simp_all add: s mount_def)
  finally have "status (run (mount None) [ClickInitialize Granted, Position 30.2672 (- 97.7431),
       Position 30.2675 (- 97.7431)]) = TESTING"
    by (simp add: startTest_fields)
  then show ?thesis
    using C8_absent_key_no_session by blast
qed

subsection \<open>The stability score\<close>

lemma run_append: "run s (xs @ ys) = run (run s xs) ys"
  by (induction xs arbitrary: s) simp_all

lemma stabilityUpdate_at_rest: "prev < 95 \<Longrightarrow> stabilityUpdate 0 prev = prev - 1"
  by (simp add: stabilityUpdate_def Let_def)

lemma stabilityUpdate_jerk: "87 < prev \<Longrightarrow> stabilityUpdate 90 prev = prev - 1"
  by (simp add: stabilityUpdate_def Let_def)

lemma step_orientation_score:
  "stabilityScore (step s (DeviceOrientation (Some a) (Some b) (Some g))) =
     stabilityUpdate (\<bar>b\<bar> + \<bar>g\<bar>) (stabilityScore s)"
  by (simp add: handleOrientation_def)

lemma run_at_rest:
  "stabilityScore s < 95 \<Longrightarrow>
   stabilityScore (run s (replicate n (DeviceOrientation (Some 0) (Some 0) (Some 0)))) =
     stabilityScore s - real n"
proof (induction n arbitrary: s)
  case 0
  then show ?case by simp
next
  case (Suc n)
  define s1 where "s1 = step s (DeviceOrientation (Some 0) (Some 0) (Some 0))"
  have s1: "stabilityScore s1 = stabilityScore s - 1"
    using Suc.prems by (simp add: s1_def handleOrientation_def stabilityUpdate_at_rest)
  then have "stabilityScore s1 < 95" using Suc.prems by simp
  from Suc.IH [OF this] show ?case
    by (simp add: s1 s1_def [symmetric] del: step.simps)
qed

lemma run_jerk:
  "87 + real n < stabilityScore s \<Longrightarrow>
   stabilityScore (run s (replicate n (DeviceOrientation (Some 0) (Some 90) (Some 0)))) =
     stabilityScore s - real n"
proof (induction n arbitrary: s)
  case 0
  then show ?case by simp
next
  case (Suc n)
  define s1 where "s1 = step s (DeviceOrientation (Some 0) (Some 90) (Some 0))"
  have s1: "stabilityScore s1 = stabilityScore s - 1"
    using Suc.prems by (simp add: s1_def handleOrientation_def stabilityUpdate_jerk)
  then have "87 + real n < stabilityScore s1" using Suc.prems by simp
  from Suc.IH [OF this] show ?case
    by (simp add: s1 s1_def [symmetric] del: step.simps)
qed

text \<open>
  C1. The claim is that the stability score stays within 0 and 100 after every
  orientation sample. The update rule saturates at 100 but has no lower bound: six samples
  with the device upright (\<open>beta = 90\<close>) bring the score to 94, and from below 95 every
  sample at rest lowers it by one, so after 95 more samples the score is \<open>- 1\<close>.
\<close>

theorem C1_score_below_zero:
  "stabilityScore (run (mount key)
     (replicate 6 (DeviceOrientation (Some 0) (Some 90) (Some 0)) @
      replicate 95 (DeviceOrientation (Some 0) (Some 0) (Some 0)))) = - 1"
proof -
  define s where "s = run (mount key) (replicate 6 (DeviceOrientation (Some 0) (Some 90) (Some 0)))"
  have "87 + real 6 < stabilityScore (mount key)" by (simp add: mount_def)
  from run_jerk [OF this] have s: "stabilityScore s = 94"
    by (simp add: s_def mount_def del: replicate.simps)
  then have "stabilityScore s < 95" by simp
  from run_at_rest [OF this, of 95] show ?thesis
    by (simp add: s run_append s_def [symmetric])
qed

lemma stabilityUpdate_upper:
  assumes "prev = 100 - real k / 2"
  shows "\<exists>k'::nat. stabilityUpdate m prev = 100 - real k' / 2"
proof (cases "\<bar>prev - (100 - m / 5)\<bar> > 5")
  case True
  then have "stabilityUpdate m prev = 100 - real (k + 2) / 2"
    using assms by (simp add: stabilityUpdate_def Let_def field_simps)
  then show ?thesis by blast
next
  case False
  show ?thesis
  proof (cases k)
    case 0
    then have "stabilityUpdate m prev = 100 - real (0::nat) / 2"
      using False assms by (simp add: stabilityUpdate_def Let_def)
    then show ?thesis by blast
  next
    case (Suc j)
    then have "stabilityUpdate m prev = 100 - real j / 2"
      using False assms by (simp add: stabilityUpdate_def Let_def field_simps)
    then show ?thesis by blast
  qed
qed

lemma step_score_upper:
  assumes "\<exists>k::nat. stabilityScore s = 100 - real k / 2"
  shows "\<exists>k::nat. stabilityScore (step s e) = 100 - real k / 2"
proof (cases e)
  case (DeviceOrientation a b g)
  from assms obtain k :: nat where "stabilityScore s = 100 - real k / 2" by blast
  from stabilityUpdate_upper [OF this] show ?thesis using assms
    by (auto simp add: DeviceOrientation handleOrientation_def split: option.splits)
qed (use assms in \<open>auto simp add: onPosition_def render_def startTest_def startSystem_def
        onopen_def onmessage_def scheduleClip_def Let_def
        split: option.splits sum.splits Hardware.splits\<close>)

lemma run_score_upper:
  "\<exists>k::nat. stabilityScore s = 100 - real k / 2 \<Longrightarrow>
   \<exists>k::nat. stabilityScore (run s es) = 100 - real k / 2"
  by (induction es arbitrary: s) (simp_all add: step_score_upper del: step.simps)

lemma score_at_most_100: "stabilityScore (run (mount key) es) \<le> 100"
proof -
  have "stabilityScore (mount key) = 100 - real (0::nat) / 2" by (simp add: mount_def)
  then have "\<exists>k::nat. stabilityScore (mount key) = 100 - real k / 2" by blast
  from run_score_upper [OF this] obtain k :: nat
    where "stabilityScore (run (mount key) es) = 100 - real k / 2" by blast
  then show ?thesis by simp
qed

subsection \<open>Playback scheduling\<close>

lemma starts_append: "starts (es @ fs) = starts es @ starts fs"
  by (induction es rule: starts.induct) simp_all

lemma playClips_starts:
  "starts (trace (playClips s clips)) = starts (trace s) @ spec_schedule (nextStartTimeRef s) clips"
proof (induction clips arbitrary: s)
  case Nil
  then show ?case by simp
next
  case (Cons c clips)
  obtain now b where c: "c = (now, b)" by (cases c)
  show ?case
    by (simp add: c Cons.IH scheduleClip_def Let_def starts_append)
qed

lemma spec_schedule_length: "length (spec_schedule t clips) = length clips"
  by (induction clips arbitrary: t) auto

lemma spec_schedule_buffers: "map snd (spec_schedule t clips) = map snd clips"
  by (induction clips arbitrary: t) auto

lemma spec_schedule_nth:
  "i < length clips \<Longrightarrow>
   fst (spec_schedule t clips ! i) =
     max (fst (clips ! i))
       (if i = 0 then t
        else fst (spec_schedule t clips ! (i - 1)) + duration (snd (spec_schedule t clips ! (i - 1))))"
proof (induction clips arbitrary: t i)
  case Nil
  then show ?case by simp
next
  case (Cons c clips)
  obtain now b where c: "c = (now, b)" by (cases c)
  show ?case
  proof (cases i)
    case 0
    then show ?thesis by (simp add: c)
  next
    case (Suc j)
    then have j: "j < length clips" using Cons.prems by simp
    show ?thesis
    proof (cases j)
      case 0
      with j obtain c' cs where "clips = c' # cs" by (cases clips) auto
      then show ?thesis by (cases c') (simp add: c Suc 0)
    next
      case (Suc k)
      with Cons.IH [OF j, of "max now t + duration b"] show ?thesis
        by (simp add: c \<open>i = Suc j\<close>)
    qed
  qed
qed

lemma spec_schedule_no_overlap:
  "Suc i < length clips \<Longrightarrow>
   fst (spec_schedule t clips ! i) + duration (snd (spec_schedule t clips ! i))
     \<le> fst (spec_schedule t clips ! Suc i)"
  using spec_schedule_nth [of "Suc i" clips t] by simp

lemma spec_schedule_sorted:
  "\<forall>c \<in> set clips. 0 \<le> duration (snd c) \<Longrightarrow> sorted (map fst (spec_schedule t clips))"
proof -
  assume nonneg: "\<forall>c \<in> set clips. 0 \<le> duration (snd c)"
  have "fst (spec_schedule t clips ! i) \<le> fst (spec_schedule t clips ! Suc i)"
    if "Suc i < length clips" for i
  proof -
    have "snd (spec_schedule t clips ! i) = snd (clips ! i)"
      using that spec_schedule_buffers [of t clips]
      by (metis Suc_lessD nth_map spec_schedule_length)
    then have "0 \<le> duration (snd (spec_schedule t clips ! i))"
      using nonneg that by simp
    with spec_schedule_no_overlap [OF that, of t] show ?thesis by simp
  qed
  then show ?thesis
    by (simp add: sorted_iff_nth_Suc spec_schedule_length)
qed

lemma decodeAudioData_duration:
  assumes "decodeAudioData bytes rate n = Inr buffer"
  shows "0 < duration buffer"
proof -
  define frameCount where "frameCount = length (Int16Array_view bytes) div n"
  from assms have ok: "\<not> (n = 0 \<or> frameCount = 0 \<or> rate < 8000)"
    by (auto simp add: decodeAudioData_def createBuffer_def Let_def frameCount_def
        split: if_splits)
  with assms have "bufLength buffer = frameCount" "sampleRate buffer = rate"
    by (auto simp add: decodeAudioData_def createBuffer_def Let_def frameCount_def
        split: if_splits)
  with ok show ?thesis by (simp add: duration_def)
qed

lemma onmessage_decoded:
  "b64 \<noteq> [] \<Longrightarrow> decode b64 = Inr bytes \<Longrightarrow> decodeAudioData bytes 24000 1 = Inr buffer \<Longrightarrow>
   onmessage s now (Some b64) = scheduleClip s now buffer"
  by (simp add: onmessage_def)

lemma onmessage_no_audio: "onmessage s now None = s"
  by (simp add: onmessage_def)

text \<open>
  C5. The clips started by a sequence of decoded clips are exactly the schedule of the
  specification, appended to the earlier ones: the same clips in the order of arrival, each
  starting at the later of its arrival time and the end (start plus duration) of the clip
  before it (for the first, the value of \<open>nextStartTimeRef\<close>). Hence no clip starts
  before the one before it ends, and start times never decrease when durations are not
  negative, as those of the buffers that \<open>decodeAudioData\<close> returns are. Three clips of 1 s, 0.5 s and 2 s arriving at time 0 in a fresh session start
  at 0, 1 and 1.5.
\<close>

theorem C5_playback_schedule:
  "(let sched = drop (length (starts (trace s))) (starts (trace (playClips s clips)))
    in starts (trace (playClips s clips)) = starts (trace s) @ sched
     \<and> sched = spec_schedule (nextStartTimeRef s) clips
     \<and> map snd sched = map snd clips
     \<and> (\<forall>i < length clips.
          fst (sched ! i) =
            max (fst (clips ! i))
              (if i = 0 then nextStartTimeRef s
               else fst (sched ! (i - 1)) + duration (snd (sched ! (i - 1)))))
     \<and> (\<forall>i. Suc i < length clips \<longrightarrow>
          fst (sched ! i) + duration (snd (sched ! i)) \<le> fst (sched ! Suc i))
     \<and> ((\<forall>c \<in> set clips. 0 \<le> duration (snd c)) \<longrightarrow> sorted (map fst sched))
     \<and> ((\<forall>c \<in> set clips. \<exists>bytes. decodeAudioData bytes 24000 1 = Inr (snd c)) \<longrightarrow>
          sorted (map fst sched)))
   \<and> (nextStartTimeRef s = 0 \<and> starts (trace s) = [] \<and>
      duration b1 = 1 \<and> duration b2 = 0.5 \<and> duration b3 = 2 \<longrightarrow>
        map fst (starts (trace (playClips s [(0, b1), (0, b2), (0, b3)]))) = [0, 1, 1.5])"
proof -
  have sched: "drop (length (starts (trace s))) (starts (trace (playClips s clips))) =
      spec_schedule (nextStartTimeRef s) clips"
    by (simp add: playClips_starts)
  have scenario: "nextStartTimeRef s = 0 \<and> starts (trace s) = [] \<and>
      duration b1 = 1 \<and> duration b2 = 0.5 \<and> duration b3 = 2 \<longrightarrow>
        map fst (starts (trace (playClips s [(0, b1), (0, b2), (0, b3)]))) = [0, 1, 1.5]"
    by (simp add: playClips_starts del: playClips.simps)
  have decoded: "sorted (map fst (spec_schedule (nextStartTimeRef s) clips))"
    if "\<forall>c \<in> set clips. \<exists>bytes. decodeAudioData bytes 24000 1 = Inr (snd c)"
  proof -
    have "\<forall>c \<in> set clips. 0 \<le> duration (snd c)"
      using that decodeAudioData_duration by (meson less_imp_le)
    then show ?thesis by (rule spec_schedule_sorted)
  qed
  show ?thesis
    unfolding Let_def sched
    using playClips_starts [of s clips] spec_schedule_buffers [of "nextStartTimeRef s" clips]
      spec_schedule_nth [of _ clips "nextStartTimeRef s"]
      spec_schedule_no_overlap [of _ clips "nextStartTimeRef s"]
      spec_schedule_sorted [of clips "nextStartTimeRef s"] decoded scenario
    by blast
qed

theorem C5_witness:
  "nextStartTimeRef (mount None) = 0 \<and> starts (trace (mount None)) = []
   \<and> duration \<lparr>numberOfChannels = 1, bufLength = 24000, sampleRate = 24000,
        channelData = [replicate 24000 0]\<rparr> = 1
   \<and> duration \<lparr>numberOfChannels = 1, bufLength = 12000, sampleRate = 24000,
        channelData = [replicate 12000 0]\<rparr> = 0.5
   \<and> duration \<lparr>numberOfChannels = 1, bufLength = 48000, sampleRate = 24000,
        channelData = [replicate 48000 0]\<rparr> = 2
   \<and> map fst (starts (trace (playClips (mount None)
        [(0, \<lparr>numberOfChannels = 1, bufLength = 24000, sampleRate = 24000,
              channelData = [replicate 24000 0]\<rparr>),
         (0, \<lparr>numberOfChannels = 1, bufLength = 12000, sampleRate = 24000,
              channelData = [replicate 12000 0]\<rparr>),
         (0, \<lparr>numberOfChannels = 1, bufLength = 48000, sampleRate = 24000,
              channelData = [replicate 48000 0]\<rparr>)]))) = [0, 1, 1.5]"
proof -
  define b1 where "b1 = \<lparr>numberOfChannels = 1, bufLength = 24000, sampleRate = 24000,
        channelData = [replicate 24000 (0::real)]\<rparr>"
  define b2 where "b2 = \<lparr>numberOfChannels = 1, bufLength = 12000, sampleRate = 24000,
        channelData = [replicate 12000 (0::real)]\<rparr>"
  define b3 where "b3 = \<lparr>numberOfChannels = 1, bufLength = 48000, sampleRate = 24000,
        channelData = [replicate 48000 (0::real)]\<rparr>"
  have h: "nextStartTimeRef (mount None) = 0 \<and> starts (trace (mount None)) = [] \<and>
      duration b1 = 1 \<and> duration b2 = 0.5 \<and> duration b3 = 2"
    by (simp add: mount_def duration_def b1_def b2_def b3_def)
  have "map fst (starts (trace (playClips (mount None) [(0, b1), (0, b2), (0, b3)]))) = [0, 1, 1.5]"
    using C5_playback_schedule [of "mount None" "[]" b1 b2 b3] h by blast
  with h show ?thesis
    unfolding b1_def b2_def b3_def by blast
qed

subsection \<open>Base64\<close>

lemma b64chars_length: "length b64chars = 64"
  by (simp add: b64chars_def)

lemma b64chars_distinct: "distinct b64chars"
  by (simp add: b64chars_def)

lemma b64chars_plain: "\<forall>c \<in> set b64chars. \<not> ascii_whitespace c \<and> c \<noteq> CHR ''=''"
  by (simp add: b64chars_def ascii_whitespace_def)

lemma pack_div: "y < n \<Longrightarrow> (x * n + y) div n = (x::nat)"
  by simp

lemma pack_mod: "y < n \<Longrightarrow> (x * n + y) mod n = (y::nat)"
  by simp

lemma div_bound: "(a::nat) < 256 \<Longrightarrow> a div 4 < 64 \<and> a div 16 < 16 \<and> a div 64 < 4"
  by (simp add: less_mult_imp_div_less)

lemma sextet_bounds:
  assumes "(a::nat) < 256" "b < 256"
  shows "a div 4 < 64" "(a mod 4) * 16 + b div 16 < 64" "(a mod 16) * 4 + b div 64 < 64"
    "a mod 64 < 64" "(a mod 16) * 4 < 64" "(a mod 4) * 16 < 64"
proof -
  have d: "a div 4 < 64" "b div 16 < 16" "b div 64 < 4"
    using assms div_bound by blast+
  have m: "a mod 4 < 4" "a mod 16 < 16" by simp_all
  show "a div 4 < 64" by (rule d)
  show "(a mod 4) * 16 + b div 16 < 64" using d m by linarith
  show "(a mod 16) * 4 + b div 64 < 64" using d m by linarith
  show "a mod 64 < 64" by simp
  show "(a mod 16) * 4 < 64" using m by linarith
  show "(a mod 4) * 16 < 64" using m by linarith
qed

lemma octet_first: "(b::nat) < 256 \<Longrightarrow> a div 4 * 4 + ((a mod 4) * 16 + b div 16) div 16 = a"
  using pack_div [of "b div 16" 16 "a mod 4"] div_bound [of b] by simp

lemma octet_second: "(c::nat) < 256 \<Longrightarrow>
    (((a mod 4) * 16 + b div 16) mod 16) * 16 + ((b mod 16) * 4 + c div 64) div 4 = b"
    if "b < 256" for a b
  using pack_mod [of "b div 16" 16 "a mod 4"] pack_div [of "c div 64" 4 "b mod 16"]
    div_bound [of b] div_bound [of c] that by simp

lemma octet_third: "(c::nat) < 256 \<Longrightarrow> (((b mod 16) * 4 + c div 64) mod 4) * 64 + c mod 64 = c"
  using pack_mod [of "c div 64" 4 "b mod 16"] div_bound [of c] by simp

lemma octet_first_tail: "a div 4 * 4 + ((a mod 4) * 16) div 16 = (a::nat)"
  by simp

lemma octet_second_tail: "(b::nat) < 256 \<Longrightarrow>
    (((a mod 4) * 16 + b div 16) mod 16) * 16 + ((b mod 16) * 4) div 4 = b"
  using pack_mod [of "b div 16" 16 "a mod 4"] div_bound [of b] by simp

lemma b64val_b64char: "n < 64 \<Longrightarrow> b64val (b64char n) = Some n"
  unfolding b64val_def b64char_def
  using map_of_zip_nth [of b64chars "[0..<64]" n]
  by (simp add: b64chars_length b64chars_distinct)

lemma b64char_plain: "n < 64 \<Longrightarrow> \<not> ascii_whitespace (b64char n) \<and> b64char n \<noteq> CHR ''=''"
  using b64chars_plain nth_mem [of n b64chars] by (simp add: b64char_def b64chars_length)

lemma sextets_bound: "\<forall>x \<in> set bs. x < 256 \<Longrightarrow> \<forall>y \<in> set (sextets bs). y < 64"
proof (induction bs rule: sextets.induct)
  case (1 a b c rest)
  then have "a < 256" "b < 256" "c < 256" by simp_all
  then have "a div 4 < 64" "(a mod 4) * 16 + b div 16 < 64" "(b mod 16) * 4 + c div 64 < 64" "c mod 64 < 64"
    by (simp_all add: sextet_bounds)
  with 1 show ?case by simp
next
  case (2 a b)
  then have "a < 256" "b < 256" by simp_all
  then have "a div 4 < 64" "(a mod 4) * 16 + b div 16 < 64" "(b mod 16) * 4 < 64"
    by (simp_all add: sextet_bounds)
  then show ?case by simp
next
  case (3 a)
  then have "a < 256" by simp
  then have "a div 4 < 64" "(a mod 4) * 16 < 64" by (simp_all add: sextet_bounds)
  then show ?case by simp
next
  case 4
  then show ?case by simp
qed

lemma octets_sextets: "\<forall>x \<in> set bs. x < 256 \<Longrightarrow> octets (sextets bs) = bs"
proof (induction bs rule: sextets.induct)
  case (1 a b c rest)
  then have "a < 256" "b < 256" "c < 256" by simp_all
  then have "a div 4 * 4 + ((a mod 4) * 16 + b div 16) div 16 = a"
    "(((a mod 4) * 16 + b div 16) mod 16) * 16 + ((b mod 16) * 4 + c div 64) div 4 = b"
    "(((b mod 16) * 4 + c div 64) mod 4) * 64 + c mod 64 = c"
    by (simp_all only: octet_first octet_second octet_third)
  with 1 show ?case by simp
next
  case (2 a b)
  then have "a < 256" "b < 256" by simp_all
  then have "a div 4 * 4 + ((a mod 4) * 16 + b div 16) div 16 = a"
    "(((a mod 4) * 16 + b div 16) mod 16) * 16 + ((b mod 16) * 4) div 4 = b"
    by (simp_all only: octet_first octet_second_tail)
  then show ?case by simp
next
  case (3 a)
  have "a div 4 * 4 + ((a mod 4) * 16) div 16 = a" by (rule octet_first_tail)
  then show ?case by simp
next
  case 4
  then show ?case by simp
qed

lemma sextets_length:
  "length (sextets bs) = 4 * (length bs div 3) + (if length bs mod 3 = 0 then 0 else length bs mod 3 + 1)"
  by (induction bs rule: sextets.induct) simp_all

lemma drop_two_last: "drop (length xs - 2) xs = [a, b] \<Longrightarrow> last xs = b"
proof -
  assume h: "drop (length xs - 2) xs = [a, b]"
  have "xs = take (length xs - 2) xs @ drop (length xs - 2) xs" by simp
  then have "xs = take (length xs - 2) xs @ [a, b]" using h by simp
  then have "last xs = last (take (length xs - 2) xs @ [a, b])" by simp
  then show ?thesis by simp
qed

lemma strip_padding_plain:
  assumes "\<forall>c \<in> set xs. c \<noteq> CHR ''=''"
  shows "strip_padding xs = xs"
proof (cases "xs = []")
  case True
  then show ?thesis by (simp add: strip_padding_def)
next
  case False
  then have l: "last xs \<noteq> CHR ''=''" using assms by simp
  then have "drop (length xs - 2) xs \<noteq> ''==''"
    using drop_two_last [of xs "CHR ''=''" "CHR ''=''"] by auto
  with l show ?thesis by (simp add: strip_padding_def)
qed

lemma strip_padding_one:
  assumes "\<forall>c \<in> set xs. c \<noteq> CHR ''=''" and "xs \<noteq> []" and "(length xs + 1) mod 4 = 0"
  shows "strip_padding (xs @ ''='') = xs"
proof -
  obtain ys z where xs: "xs = ys @ [z]" using assms(2) by (cases xs rule: rev_cases) auto
  then have z: "z \<noteq> CHR ''=''" using assms(1) by simp
  have "drop (length (xs @ ''='') - 2) (xs @ ''='') = [z, CHR ''='']" by (simp add: xs)
  then have "drop (length (xs @ ''='') - 2) (xs @ ''='') \<noteq> ''==''" using z by simp
  moreover have "length (xs @ ''='') mod 4 = 0" using assms(3) by simp
  ultimately show ?thesis unfolding strip_padding_def by simp
qed

lemma strip_padding_two:
  assumes "(length xs + 2) mod 4 = 0"
  shows "strip_padding (xs @ ''=='') = xs"
  using assms by (simp add: strip_padding_def)

lemma atob_btoa: "atob (btoa s) = Inr s"
proof -
  define bs :: "nat list" where "bs = map of_char s"
  define sx where "sx = sextets bs"
  define xs where "xs = map b64char sx"
  define p where "p = (3 - length bs mod 3) mod 3"
  have bs: "\<forall>x \<in> set bs. x < 256" by (auto simp add: bs_def)
  have sx: "\<forall>y \<in> set sx. y < 64" unfolding sx_def by (rule sextets_bound [OF bs])
  have xs: "\<forall>c \<in> set xs. \<not> ascii_whitespace c \<and> c \<noteq> CHR ''=''"
    using sx b64char_plain by (auto simp add: xs_def)
  have len: "length xs = 4 * (length bs div 3) + (if length bs mod 3 = 0 then 0 else length bs mod 3 + 1)"
    by (simp add: xs_def sx_def sextets_length)
  have b: "btoa s = xs @ replicate p (CHR ''='')"
    by (simp add: btoa_def Let_def xs_def sx_def bs_def p_def)
  have "filter (\<lambda>c. \<not> ascii_whitespace c) (xs @ replicate p (CHR ''='')) = xs @ replicate p (CHR ''='')"
    using xs by (simp add: ascii_whitespace_def)
  moreover have "strip_padding (xs @ replicate p (CHR ''='')) = xs"
  proof -
    consider "length bs mod 3 = 0" | "length bs mod 3 = 1" | "length bs mod 3 = 2"
      by linarith
    then show ?thesis
    proof cases
      case 1
      then have "p = 0" by (simp add: p_def)
      then show ?thesis using xs by (simp add: strip_padding_plain)
    next
      case 2
      then have p: "p = 2" by (simp add: p_def)
      have "(length xs + 2) mod 4 = 0" using 2 len by simp
      then show ?thesis using strip_padding_two [of xs] by (simp add: p numeral_2_eq_2)
    next
      case 3
      then have p: "p = 1" by (simp add: p_def)
      have l: "(length xs + 1) mod 4 = 0" "xs \<noteq> []" using 3 len by auto
      then show ?thesis using strip_padding_one [of xs] xs by (simp add: p)
    qed
  qed
  moreover have "length xs mod 4 \<noteq> 1"
  proof -
    have m: "(4 * k + r) mod 4 = r mod 4" for k r :: nat by simp
    consider "length bs mod 3 = 0" | "length bs mod 3 = 1" | "length bs mod 3 = 2"
      by linarith
    then show ?thesis
    proof cases
      case 1
      then have "length xs = 4 * (length bs div 3) + 0" using len by simp
      then have "length xs mod 4 = 0 mod 4" by (simp only: m)
      then show ?thesis by simp
    next
      case 2
      then have "length xs = 4 * (length bs div 3) + 2" using len by simp
      then have "length xs mod 4 = 2 mod 4" by (simp only: m)
      then show ?thesis by simp
    next
      case 3
      then have "length xs = 4 * (length bs div 3) + 3" using len by simp
      then have "length xs mod 4 = 3 mod 4" by (simp only: m)
      then show ?thesis by simp
    qed
  qed
  moreover have "\<not> (\<exists>c \<in> set xs. b64val c = None)"
    using sx by (auto simp add: xs_def b64val_b64char)
  moreover have "map (the \<circ> b64val) xs = sx"
    using sx by (simp add: xs_def b64val_b64char map_idI)
  moreover have "octets sx = bs" unfolding sx_def by (rule octets_sextets [OF bs])
  moreover have "map char_of bs = s" by (simp add: bs_def comp_def)
  ultimately show ?thesis
    by (simp add: atob_def b Let_def)
qed

subsection \<open>The audio round trip\<close>

lemma int16_bytes_inverse: "int16_of_bytes (ucast w) (ucast (drop_bit 8 w)) = w"
  unfolding int16_of_bytes_def
  by (rule bit_word_eqI) (auto simp add: bit_simps)

lemma Int16Array_view_bytes: "Int16Array_view (concat (map bytes_of_int16 ws)) = ws"
  by (induction ws) (simp_all add: bytes_of_int16_def int16_bytes_inverse)

lemma bytes_length: "length (concat (map bytes_of_int16 ws)) = 2 * length ws"
  by (induction ws) (simp_all add: bytes_of_int16_def)

lemma byte_char_inverse: "word_of_nat (of_char (char_of (unat b))) = (b :: byte)"
proof -
  have "unat b < 2 ^ LENGTH(8)" by (rule unsigned_less)
  then have "unat b mod 256 = unat b" by simp
  then show ?thesis by simp
qed

lemma decode_btoa: "decode (btoa (map (\<lambda>b. char_of (unat b)) bytes)) = Inr bytes"
proof -
  have "map (\<lambda>c. word_of_nat (of_char c)) (map (\<lambda>b. char_of (unat b)) bytes) = bytes"
    unfolding map_map comp_def by (simp only: byte_char_inverse map_ident)
  then show ?thesis by (simp only: decode_def atob_btoa sum.case)
qed

lemma js_trunc_close: "\<bar>real_of_int (js_trunc y) - y\<bar> < 1"
  unfolding js_trunc_def by (auto; linarith)

lemma js_trunc_range:
  assumes "- 32768 \<le> y" and "y < 32768"
  shows "- 32768 \<le> js_trunc y" and "js_trunc y < 32768"
  using assms unfolding js_trunc_def by (auto; linarith)+

lemma sint_toInt16:
  assumes "- 32768 \<le> y" and "y < 32768"
  shows "sint (toInt16 y) = js_trunc y"
proof -
  have "sint (word_of_int (js_trunc y) :: int16) = signed_take_bit 15 (js_trunc y)"
    by (simp add: sint_sbintrunc')
  also have "\<dots> = js_trunc y"
    using js_trunc_range [OF assms] by (simp add: signed_take_bit_int_eq_self)
  finally show ?thesis by (simp only: toInt16_def)
qed

lemma quantise_close:
  assumes "- 1 \<le> x" and "x < 1"
  shows "\<bar>real_of_int (sint (toInt16 (x * 32768))) / 32768 - x\<bar> < 1 / 32768"
proof -
  have r: "- 32768 \<le> x * 32768" "x * 32768 < 32768" using assms by simp_all
  have "\<bar>real_of_int (js_trunc (x * 32768)) - x * 32768\<bar> < 1" by (rule js_trunc_close)
  then have "\<bar>real_of_int (js_trunc (x * 32768)) / 32768 - x\<bar> < 1 / 32768"
    by (simp add: field_simps abs_less_iff)
  then show ?thesis by (simp add: sint_toInt16 [OF r])
qed

lemma roundTrip_bytes:
  "roundTrip samples rate numChannels =
     decodeAudioData (concat (map bytes_of_int16 (map (\<lambda>x. toInt16 (x * 32768)) samples))) rate numChannels"
  unfolding roundTrip_def createBlob_def Let_def
  by (simp only: PcmBlob.simps decode_btoa sum.case)

lemma decodeAudioData_mono:
  assumes "ws \<noteq> []" and "8000 \<le> rate" and "rate \<le> 96000"
  shows "decodeAudioData (concat (map bytes_of_int16 ws)) rate 1 =
     Inr \<lparr>numberOfChannels = 1, bufLength = length ws, sampleRate = rate,
          channelData = [map (\<lambda>w. real_of_int (sint w) / 32768) ws]\<rparr>"
proof -
  have even: "odd (length (concat (map bytes_of_int16 ws))) = False"
    by (simp add: bytes_length)
  have cb: "createBuffer 1 (length ws div 1) rate =
      Inr \<lparr>numberOfChannels = 1, bufLength = length ws, sampleRate = rate,
           channelData = replicate 1 (replicate (length ws) 0)\<rparr>"
    using assms by (simp add: createBuffer_def)
  have inner: "map (\<lambda>i. real_of_int (sint (ws ! (i * 1 + 0))) / 32768) [0..<length ws]
      = map (\<lambda>w. real_of_int (sint w) / 32768) ws"
    by (rule nth_equalityI) simp_all
  have ch: "map (\<lambda>channel.
               map (\<lambda>i. real_of_int (sint (ws ! (i * 1 + channel))) / 32768) [0..<length ws div 1])
             [0..<1]
      = [map (\<lambda>w. real_of_int (sint w) / 32768) ws]"
  proof -
    have "[0..<1] = [0::nat]" by simp
    then show ?thesis by (simp only: list.map inner div_by_1)
  qed
  show ?thesis
    unfolding decodeAudioData_def Let_def Int16Array_view_bytes
    by (simp only: even if_False cb sum.case ch AudioBuffer.simps)
qed

lemma roundTrip_mono:
  assumes "samples \<noteq> []" and "8000 \<le> rate" and "rate \<le> 96000"
  shows "roundTrip samples rate 1 =
     Inr \<lparr>numberOfChannels = 1, bufLength = length samples, sampleRate = rate,
          channelData = [map (\<lambda>x. real_of_int (sint (toInt16 (x * 32768))) / 32768) samples]\<rparr>"
  using assms decodeAudioData_mono [of "map (\<lambda>x. toInt16 (x * 32768)) samples" rate]
  by (simp add: roundTrip_bytes comp_def)

lemma roundTrip_empty: "roundTrip [] rate 1 = Inl NotSupportedError"
  by (simp add: roundTrip_bytes decodeAudioData_def createBuffer_def)

lemma full_scale_wraps:
  "map (\<lambda>x. real_of_int (sint (toInt16 (x * 32768))) / 32768) [1] = [- 1]"
proof -
  have a: "sint (toInt16 (1 * 32768)) = - 32768"
    by (simp add: toInt16_def js_trunc_def)
  have "real_of_int (sint (toInt16 (1 * 32768))) / 32768 = - 1"
    unfolding a by simp
  then show ?thesis by (simp only: list.map)
qed

text \<open>
  C2, as stated, fails at the full-scale sample 1: \<open>1 * 32768\<close> wraps to \<open>- 32768\<close> in
  the \<open>Int16Array\<close> and decodes to \<open>- 1\<close>. It also fails for the empty buffer, which
  \<open>createBuffer\<close> refuses.
\<close>

theorem C2_full_scale_sample_wraps:
  "roundTrip [1] 16000 1 =
     Inr \<lparr>numberOfChannels = 1, bufLength = 1, sampleRate = 16000, channelData = [[- 1]]\<rparr>
   \<and> \<not> \<bar>(- 1) - (1::real)\<bar> \<le> 1 / 32768
   \<and> roundTrip [] 16000 1 = Inl NotSupportedError"
proof -
  have "roundTrip [1] 16000 1 =
     Inr \<lparr>numberOfChannels = 1, bufLength = 1, sampleRate = 16000, channelData = [[- 1]]\<rparr>"
    using roundTrip_mono [of "[1]" 16000] unfolding full_scale_wraps by simp
  moreover have "\<not> \<bar>(- 1) - (1::real)\<bar> \<le> 1 / 32768" by simp
  moreover note roundTrip_empty [of 16000]
  ultimately show ?thesis by (intro conjI)
qed

text \<open>
  C2, amended. For every non-empty buffer of samples each at least \<open>- 1\<close> and below 1,
  encoding it and decoding the result at one channel and at a sample rate that
  \<open>createBuffer\<close> supports (8000 to 96000 Hz, the encoder's 16000 Hz among them) yields a
  buffer of the same length whose every sample differs from the original by less than
  \<open>1 / 32768\<close>.
\<close>

theorem C2_roundtrip_within_quantisation:
  assumes "samples \<noteq> []" and "\<forall>x \<in> set samples. - 1 \<le> x \<and> x < 1"
    and "8000 \<le> rate" and "rate \<le> 96000"
  shows "\<exists>buffer. roundTrip samples rate 1 = Inr buffer
       \<and> numberOfChannels buffer = 1 \<and> sampleRate buffer = rate
       \<and> bufLength buffer = length samples
       \<and> length (channelData buffer) = 1
       \<and> length (channelData buffer ! 0) = length samples
       \<and> (\<forall>i < length samples. \<bar>channelData buffer ! 0 ! i - samples ! i\<bar> < 1 / 32768)"
proof -
  define buffer where "buffer = \<lparr>numberOfChannels = 1, bufLength = length samples, sampleRate = rate,
          channelData = [map (\<lambda>x. real_of_int (sint (toInt16 (x * 32768))) / 32768) samples]\<rparr>"
  have r: "roundTrip samples rate 1 = Inr buffer"
    unfolding buffer_def by (rule roundTrip_mono [OF assms(1,3,4)])
  have "\<bar>channelData buffer ! 0 ! i - samples ! i\<bar> < 1 / 32768" if "i < length samples" for i
  proof -
    have "samples ! i \<in> set samples" using that by simp
    then have "- 1 \<le> samples ! i" "samples ! i < 1" using assms(2) by auto
    from quantise_close [OF this] show ?thesis using that by (simp add: buffer_def)
  qed
  then show ?thesis using r by (auto simp add: buffer_def)
qed

theorem C2_witness:
  "[0.5, - 1, 0.25] \<noteq> ([] :: real list)
   \<and> (- 1 \<le> (0.5::real) \<and> (0.5::real) < 1) \<and> (- 1 \<le> (- 1::real) \<and> (- 1::real) < 1)
   \<and> (- 1 \<le> (0.25::real) \<and> (0.25::real) < 1) \<and> (8000::real) \<le> 16000
   \<and> (16000::real) \<le> 96000
   \<and> (\<exists>buffer. roundTrip [0.5, - 1, 0.25] 16000 1 = Inr buffer
        \<and> bufLength buffer = 3
        \<and> \<bar>channelData buffer ! 0 ! 0 - 0.5\<bar> < 1 / 32768
        \<and> \<bar>channelData buffer ! 0 ! 1 - (- 1)\<bar> < 1 / 32768
        \<and> \<bar>channelData buffer ! 0 ! 2 - 0.25\<bar> < 1 / 32768)"
proof -
  have h: "[0.5, - 1, 0.25] \<noteq> ([] :: real list)"
    "\<forall>x \<in> set [0.5, - 1, 0.25 :: real]. - 1 \<le> x \<and> x < 1"
    "(8000::real) \<le> 16000" "(16000::real) \<le> 96000"
    by simp_all
  from C2_roundtrip_within_quantisation [OF h] obtain buffer
    where b: "roundTrip [0.5, - 1, 0.25] 16000 1 = Inr buffer" "bufLength buffer = length [0.5, - 1, 0.25 :: real]"
      "\<forall>i < length [0.5, - 1, 0.25 :: real]. \<bar>channelData buffer ! 0 ! i - [0.5, - 1, 0.25] ! i\<bar> < 1 / 32768"
    by blast
  have "\<bar>channelData buffer ! 0 ! 0 - 0.5\<bar> < 1 / 32768"
    "\<bar>channelData buffer ! 0 ! 1 - (- 1)\<bar> < 1 / 32768"
    "\<bar>channelData buffer ! 0 ! 2 - 0.25\<bar> < 1 / 32768"
    using b(3) [rule_format, of 0] b(3) [rule_format, of 1] b(3) [rule_format, of 2] by simp_all
  with b(1,2) show ?thesis by simp
qed

end
